theory Spec2Isabelle
  imports Main "HOL-Library.Word" "HOL-Library.AList"
begin

section \<open>Data model of the WhisperLink server\<close>

text \<open>
  A JavaScript string is a sequence of UTF-16 code units; \<open>s.length\<close> counts code units.
\<close>

type_synonym jsstring = "16 word list"

text \<open>
  String literals of the source are written as Isabelle strings and converted code unit by
  code unit.
\<close>

definition js :: "string \<Rightarrow> jsstring" where
  "js s = map (\<lambda>c. of_nat (of_char c)) s"

text \<open>
  \<open>String.prototype.trim\<close> strips the ECMAScript WhiteSpace and LineTerminator code points
  from both ends: TAB, LF, VT, FF, CR, SP, NBSP, U+1680, U+2000..U+200A, U+2028, U+2029,
  U+202F, U+205F, U+3000 and U+FEFF.
\<close>

definition isWhiteSpace :: "16 word \<Rightarrow> bool" where
  "isWhiteSpace c =
     (let n = unat c in
        (9 \<le> n \<and> n \<le> 13) \<or> n = 32 \<or> n = 160 \<or> n = 5760 \<or>
        (8192 \<le> n \<and> n \<le> 8202) \<or> n = 8232 \<or> n = 8233 \<or> n = 8239 \<or>
        n = 8287 \<or> n = 12288 \<or> n = 65279)"

definition trim :: "jsstring \<Rightarrow> jsstring" where
  "trim s = rev (dropWhile isWhiteSpace (rev (dropWhile isWhiteSpace s)))"

text \<open>
  The value found under \<open>content\<close> in the parsed JSON body of a request. \<open>JObject\<close> stands
  for any array or object; \<open>JUndefined\<close> for a missing field. Numbers are kept as integers:
  the handler rejects every number, whatever its value.
\<close>

datatype jsvalue =
    JUndefined
  | JNull
  | JBool bool
  | JNumber int
  | JString jsstring
  | JObject

fun falsy :: "jsvalue \<Rightarrow> bool" where
  "falsy JUndefined = True"
| "falsy JNull = True"
| "falsy (JBool b) = (\<not> b)"
| "falsy (JNumber n) = (n = 0)"
| "falsy (JString s) = (s = [])"
| "falsy JObject = False"

fun typeof_string :: "jsvalue \<Rightarrow> bool" where
  "typeof_string (JString s) = True"
| "typeof_string v = False"

fun string_of :: "jsvalue \<Rightarrow> jsstring" where
  "string_of (JString s) = s"
| "string_of v = []"

text \<open>
  \<open>Map<uuid, { content: string, expiresAt: timestamp }>\<close>. Timestamps are the integer
  milliseconds of \<open>Date.now()\<close>. A JavaScript \<open>Map\<close> keeps its entries in insertion order
  with one entry per key: the store is an association list, \<open>set\<close> is \<open>AList.update\<close>
  (an existing key keeps its position), \<open>get\<close> is \<open>map_of\<close>, \<open>delete\<close> is
  \<open>AList.delete\<close> and \<open>size\<close> is \<open>length\<close>.
\<close>

record secret =
  content :: jsstring
  expiresAt :: int

type_synonym store = "(jsstring \<times> secret) list"

definition SECRET_TTL_HOURS :: int where
  "SECRET_TTL_HOURS = 24"

definition CLEANUP_INTERVAL_MS :: int where
  "CLEANUP_INTERVAL_MS = 60 * 60 * 1000"

text \<open>One entry per key, as a \<open>Map\<close> has.\<close>

definition map_store :: "store \<Rightarrow> bool" where
  "map_store secrets = distinct (map fst secrets)"

section \<open>Requests and responses\<close>

text \<open>
  What the create handler reads of a request: the \<open>content\<close> field of the body, the
  \<open>x-forwarded-proto\<close> header, \<open>req.protocol\<close> and the \<open>host\<close> header. The JSON body
  parser installed before the handlers always provides an object as \<open>req.body\<close>, so
  reading the field does not throw and the \<open>catch\<close> branches of the handlers (status 500)
  are not reached.
\<close>

record create_request =
  body_content :: jsvalue
  forwarded_proto :: "jsstring option"
  protocol :: jsstring
  host :: "jsstring option"

text \<open>
  The JSON responses of the API. \<open>Created id url expiresAt hours\<close> is the 200 response of
  the create handler, whose \<open>expiresIn\<close> field renders \<open>hours\<close> followed by \<open>hours\<close>;
  \<open>Content c\<close> is the 200 response of the read handler; \<open>Error status msg\<close> is
  \<open>res.status(status).json({ error: msg })\<close>; \<open>Health n\<close> is the health response with
  \<open>activeSecrets = n\<close>.
\<close>

datatype response =
    Created jsstring jsstring int int
  | Content jsstring
  | Error nat string
  | Health nat

section \<open>The handlers\<close>

text \<open>\<open>req.get('x-forwarded-proto') || req.protocol\<close>: an absent or empty header is falsy.\<close>

definition request_protocol :: "create_request \<Rightarrow> jsstring" where
  "request_protocol req =
     (case forwarded_proto req of
        None \<Rightarrow> protocol req
      | Some p \<Rightarrow> if p = [] then protocol req else p)"

text \<open>A template literal renders an undefined header as the text \<open>undefined\<close>.\<close>

definition request_host :: "create_request \<Rightarrow> jsstring" where
  "request_host req = (case host req of None \<Rightarrow> js ''undefined'' | Some h \<Rightarrow> h)"

text \<open>
  \<open>POST /api/secrets\<close>. The identifier drawn by \<open>uuidv4()\<close> and the clock reading of
  \<open>Date.now()\<close> are inputs of the model.
\<close>

definition post_secrets ::
  "jsstring \<Rightarrow> int \<Rightarrow> create_request \<Rightarrow> store \<Rightarrow> response \<times> store" where
  "post_secrets uuid now req secrets =
     (let c = body_content req in
      if falsy c \<or> \<not> typeof_string c \<or> length (trim (string_of c)) = 0
      then (Error 400 ''Secret content is required'', secrets)
      else if length (string_of c) > 100000
      then (Error 400 ''Secret content is too large (max 100KB)'', secrets)
      else
        let sid = uuid;
            expires = now + (SECRET_TTL_HOURS * 60 * 60 * 1000);
            secrets' = AList.update sid \<lparr>content = trim (string_of c), expiresAt = expires\<rparr> secrets;
            url = request_protocol req @ js ''://'' @ request_host req @ js ''/?secret='' @ sid
        in (Created sid url expires SECRET_TTL_HOURS, secrets'))"

text \<open>\<open>GET /api/secrets/:id\<close>, with the clock reading of \<open>Date.now()\<close> as an input.\<close>

definition get_secret :: "int \<Rightarrow> jsstring \<Rightarrow> store \<Rightarrow> response \<times> store" where
  "get_secret now sid secrets =
     (if sid = [] \<or> length sid \<noteq> 36
      then (Error 404 ''Secret not found or already accessed'', secrets)
      else
        case map_of secrets sid of
          None \<Rightarrow> (Error 404 ''Secret not found or already accessed'', secrets)
        | Some s \<Rightarrow>
            if expiresAt s < now
            then (Error 404 ''Secret has expired'', AList.delete sid secrets)
            else (Content (content s), AList.delete sid secrets))"

text \<open>\<open>GET /api/health\<close>: \<open>activeSecrets\<close> is \<open>secrets.size\<close>.\<close>

definition get_health :: "store \<Rightarrow> response" where
  "get_health secrets = Health (length secrets)"

text \<open>
  The background cleanup job. The loop visits the entries of the map in order; deleting the
  entry being visited does not disturb the visit of the others. It yields the store and
  \<open>cleanedCount\<close>, which the job logs when it is positive.
\<close>

fun cleanup_loop :: "int \<Rightarrow> (jsstring \<times> secret) list \<Rightarrow> store \<Rightarrow> nat \<Rightarrow> store \<times> nat" where
  "cleanup_loop now [] secrets cleanedCount = (secrets, cleanedCount)"
| "cleanup_loop now ((sid, s) # rest) secrets cleanedCount =
     (if expiresAt s < now
      then cleanup_loop now rest (AList.delete sid secrets) (cleanedCount + 1)
      else cleanup_loop now rest secrets cleanedCount)"

definition cleanup :: "int \<Rightarrow> store \<Rightarrow> store \<times> nat" where
  "cleanup now secrets = cleanup_loop now secrets secrets 0"

section \<open>Runs of the server\<close>

text \<open>
  No handler awaits anything, so the event loop of the runtime runs each handler and each
  tick of the cleanup job to completion before the next one starts: requests that arrive
  concurrently are served one after the other, in some order. A run of the server is a list
  of events, each with the inputs it draws from its environment.
\<close>

datatype event =
    PostSecrets jsstring int create_request
  | GetSecret int jsstring
  | GetHealth
  | CleanupTick int

datatype outcome =
    Response response
  | Cleaned nat

fun step :: "event \<Rightarrow> store \<Rightarrow> outcome \<times> store" where
  "step (PostSecrets uuid now req) secrets =
     (Response (fst (post_secrets uuid now req secrets)), snd (post_secrets uuid now req secrets))"
| "step (GetSecret now sid) secrets =
     (Response (fst (get_secret now sid secrets)), snd (get_secret now sid secrets))"
| "step GetHealth secrets = (Response (get_health secrets), secrets)"
| "step (CleanupTick now) secrets = (Cleaned (snd (cleanup now secrets)), fst (cleanup now secrets))"

fun trace :: "event list \<Rightarrow> store \<Rightarrow> (event \<times> outcome) list" where
  "trace [] secrets = []"
| "trace (ev # evs) secrets = (ev, fst (step ev secrets)) # trace evs (snd (step ev secrets))"

fun exec :: "event list \<Rightarrow> store \<Rightarrow> store" where
  "exec [] secrets = secrets"
| "exec (ev # evs) secrets = exec evs (snd (step ev secrets))"

text \<open>The read requests for one identifier, and the responses they get in a run.\<close>

fun reads :: "jsstring \<Rightarrow> event \<Rightarrow> bool" where
  "reads sid (GetSecret now sid') = (sid' = sid)"
| "reads sid ev = False"

definition responses_for :: "jsstring \<Rightarrow> event list \<Rightarrow> store \<Rightarrow> outcome list" where
  "responses_for sid evs secrets = map snd (filter (\<lambda>p. reads sid (fst p)) (trace evs secrets))"

text \<open>A create request for which \<open>uuidv4()\<close> draws the given identifier.\<close>

fun draws :: "jsstring \<Rightarrow> event \<Rightarrow> bool" where
  "draws sid (PostSecrets uuid now req) = (uuid = sid)"
| "draws sid ev = False"

text \<open>
  The identifiers drawn during a run are fresh: none is a key of the store at the moment it
  is drawn.
\<close>

fun fresh_uuids :: "event list \<Rightarrow> store \<Rightarrow> bool" where
  "fresh_uuids [] secrets = True"
| "fresh_uuids (ev # evs) secrets =
     ((case ev of PostSecrets uuid now req \<Rightarrow> uuid \<notin> fst ` set secrets | _ \<Rightarrow> True) \<and>
      fresh_uuids evs (snd (step ev secrets)))"

text \<open>The clock of an event has not passed the expiry of a secret, as the handlers compare.\<close>

fun unexpired_at :: "secret \<Rightarrow> event \<Rightarrow> bool" where
  "unexpired_at s (GetSecret now sid) = (\<not> expiresAt s < now)"
| "unexpired_at s (CleanupTick now) = (\<not> expiresAt s < now)"
| "unexpired_at s ev = True"

text \<open>
  Counting from the outputs of a run. An entry is inserted by each create request answered
  with \<open>Created\<close>. The read handler calls \<open>secrets.delete\<close> on the two paths that answer
  with the content and with \<open>Secret has expired\<close>, both after \<open>secrets.get\<close> found the
  entry; the cleanup job deletes \<open>cleanedCount\<close> entries.
\<close>

fun puts_of :: "outcome \<Rightarrow> nat" where
  "puts_of (Response (Created sid url expires hours)) = 1"
| "puts_of out = 0"

fun removed_of :: "outcome \<Rightarrow> nat" where
  "removed_of (Response (Content c)) = 1"
| "removed_of (Response (Error status msg)) = (if msg = ''Secret has expired'' then 1 else 0)"
| "removed_of (Cleaned n) = n"
| "removed_of out = 0"

definition puts :: "(event \<times> outcome) list \<Rightarrow> nat" where
  "puts tr = sum_list (map (puts_of \<circ> snd) tr)"

definition removed :: "(event \<times> outcome) list \<Rightarrow> nat" where
  "removed tr = sum_list (map (removed_of \<circ> snd) tr)"

text \<open>A content with at least one code unit and no white space at either end.\<close>

definition trimmed :: "jsstring \<Rightarrow> bool" where
  "trimmed c = (c \<noteq> [] \<and> \<not> isWhiteSpace (hd c) \<and> \<not> isWhiteSpace (last c))"

fun is_error :: "response \<Rightarrow> bool" where
  "is_error (Error status msg) = True"
| "is_error r = False"

section \<open>Sample inputs\<close>

text \<open>The identifier and the host of the API reference of the repository.\<close>

definition sample_uuid :: jsstring where
  "sample_uuid = js ''550e8400-e29b-41d4-a716-446655440000''"

definition request_with :: "jsstring \<Rightarrow> create_request" where
  "request_with c =
     \<lparr>body_content = JString c, forwarded_proto = None, protocol = js ''https'',
      host = Some (js ''your-domain.com'')\<rparr>"

section \<open>Auxiliary facts\<close>

lemma delete_filter: "AList.delete k al = filter (\<lambda>p. fst p \<noteq> k) al"
  by (induction al) auto

lemma delete_middle:
  assumes "distinct (map fst (pre @ (k, v) # rest))"
  shows "AList.delete k (pre @ (k, v) # rest) = pre @ rest"
proof -
  from assms have a: "k \<notin> fst ` set pre" and b: "k \<notin> fst ` set rest" by auto
  have "filter (\<lambda>p. fst p \<noteq> k) pre = pre" using a by (induction pre) auto
  moreover have "filter (\<lambda>p. fst p \<noteq> k) rest = rest" using b by (induction rest) auto
  ultimately show ?thesis by (simp add: delete_filter)
qed

lemma cleanup_loop_split:
  "distinct (map fst (pre @ xs)) \<Longrightarrow>
   cleanup_loop now xs (pre @ xs) c =
     (pre @ filter (\<lambda>p. \<not> expiresAt (snd p) < now) xs,
      c + length (filter (\<lambda>p. expiresAt (snd p) < now) xs))"
proof (induction xs arbitrary: pre c)
  case Nil
  then show ?case by simp
next
  case (Cons x xs)
  obtain k v where x: "x = (k, v)" by (cases x)
  show ?case
  proof (cases "expiresAt v < now")
    case True
    from Cons.prems x have d: "distinct (map fst (pre @ xs))" by auto
    have del: "AList.delete k (pre @ (k, v) # xs) = pre @ xs"
      using Cons.prems x by (intro delete_middle) simp
    show ?thesis using True x del Cons.IH [OF d, of "c + 1"] by simp
  next
    case False
    from Cons.prems x have d: "distinct (map fst ((pre @ [(k, v)]) @ xs))" by auto
    show ?thesis using False x Cons.IH [OF d, of c] by simp
  qed
qed

lemma cleanup_filter:
  assumes "map_store secrets"
  shows "cleanup now secrets =
     (filter (\<lambda>p. \<not> expiresAt (snd p) < now) secrets,
      length (filter (\<lambda>p. expiresAt (snd p) < now) secrets))"
  using cleanup_loop_split [of "[]" secrets now 0] assms
  by (simp add: cleanup_def map_store_def)

subsection \<open>trim\<close>

lemma trim_all_white:
  assumes "\<forall>x\<in>set c. isWhiteSpace x"
  shows "trim c = []"
proof -
  from assms have d: "dropWhile isWhiteSpace c = []" by (induction c) auto
  show ?thesis unfolding trim_def d by simp
qed

lemma trim_trimmed:
  assumes "trim c \<noteq> []"
  shows "trimmed (trim c)"
proof -
  define d where "d = dropWhile isWhiteSpace c"
  define r where "r = dropWhile isWhiteSpace (rev d)"
  have t: "trim c = rev r" by (simp add: trim_def d_def r_def)
  with assms have rne: "r \<noteq> []" by simp
  then have dne: "d \<noteq> []" by (auto simp: r_def)
  have "\<not> isWhiteSpace (hd r)" using rne unfolding r_def by (rule hd_dropWhile)
  then have l: "\<not> isWhiteSpace (last (rev r))" using rne by (simp add: last_rev)
  obtain ys where ys: "rev d = ys @ r" "\<forall>y\<in>set ys. isWhiteSpace y"
    unfolding r_def
    by (metis takeWhile_dropWhile_id set_takeWhileD)
  have "last r = last (rev d)" using ys rne by simp
  also have "\<dots> = hd d" using dne by (simp add: last_rev)
  finally have "hd (rev r) = hd d" using rne by (simp add: hd_rev)
  moreover have "\<not> isWhiteSpace (hd d)" using dne unfolding d_def by (rule hd_dropWhile)
  ultimately show ?thesis using l rne t by (simp add: trimmed_def)
qed

lemma dropWhile_hd: "xs \<noteq> [] \<Longrightarrow> \<not> P (hd xs) \<Longrightarrow> dropWhile P xs = xs"
  by (cases xs) auto

lemma trim_id:
  assumes "trimmed c"
  shows "trim c = c"
proof -
  from assms have ne: "c \<noteq> []" and h: "\<not> isWhiteSpace (hd c)" and l: "\<not> isWhiteSpace (last c)"
    by (simp_all add: trimmed_def)
  have a: "dropWhile isWhiteSpace c = c" using ne h by (rule dropWhile_hd)
  have "hd (rev c) = last c" using ne by (simp add: hd_rev)
  then have b: "dropWhile isWhiteSpace (rev c) = rev c" using ne l by (intro dropWhile_hd) simp_all
  show ?thesis by (simp add: trim_def a b)
qed

subsection \<open>the store\<close>

lemma map_of_absent_iff: "map_of al k = None \<longleftrightarrow> k \<notin> fst ` set al"
  by (simp add: map_of_eq_None_iff)

lemma length_update_fresh:
  "k \<notin> fst ` set al \<Longrightarrow> length (AList.update k v al) = Suc (length al)"
  by (induction al) auto

lemma length_delete_present:
  "distinct (map fst al) \<Longrightarrow> map_of al k = Some v \<Longrightarrow> Suc (length (AList.delete k al)) = length al"
proof (induction al)
  case Nil
  then show ?case by simp
next
  case (Cons p al)
  show ?case
  proof (cases "fst p = k")
    case True
    with Cons.prems have "k \<notin> fst ` set al" by auto
    then have "AList.delete k al = al" by simp
    with True show ?thesis by (cases p) simp
  next
    case False
    with Cons show ?thesis by (cases p) auto
  qed
qed

lemma set_update_subset: "set (AList.update k v al) \<subseteq> insert (k, v) (set al)"
  by (induction al) auto

lemma set_delete_subset: "set (AList.delete k al) \<subseteq> set al"
  by (auto simp: delete_filter)

lemma map_of_filter_distinct:
  "distinct (map fst al) \<Longrightarrow>
   map_of (filter P al) k =
     (case map_of al k of None \<Rightarrow> None | Some v \<Rightarrow> if P (k, v) then Some v else None)"
proof (induction al)
  case Nil
  then show ?case by simp
next
  case (Cons p al)
  obtain k' v' where p: "p = (k', v')" by (cases p)
  from Cons.prems p have notin: "k' \<notin> fst ` set al" by auto
  then have none: "map_of al k' = None" by (simp add: map_of_eq_None_iff)
  show ?case
  proof (cases "k' = k")
    case True
    have "map_of (filter P al) k = None"
      using notin True by (auto simp: map_of_eq_None_iff)
    then show ?thesis using True p none by simp
  next
    case False
    then show ?thesis using Cons p by simp
  qed
qed

subsection \<open>cleanup\<close>

lemma cleanup_loop_set: "set (fst (cleanup_loop now xs secrets c)) \<subseteq> set secrets"
proof (induction xs arbitrary: secrets c)
  case Nil
  then show ?case by simp
next
  case (Cons x xs)
  obtain k v where x: "x = (k, v)" by (cases x)
  show ?case
  proof (cases "expiresAt v < now")
    case True
    have "set (fst (cleanup_loop now xs (AList.delete k secrets) (c + 1))) \<subseteq> set (AList.delete k secrets)"
      by (rule Cons.IH)
    then show ?thesis using True x set_delete_subset [of k secrets] by auto
  next
    case False
    then show ?thesis using x Cons.IH [of secrets c] by simp
  qed
qed

lemma cleanup_set: "set (fst (cleanup now secrets)) \<subseteq> set secrets"
  by (simp add: cleanup_def cleanup_loop_set)

lemma cleanup_map_of:
  assumes "map_store secrets"
  shows "map_of (fst (cleanup now secrets)) sid =
     (case map_of secrets sid of None \<Rightarrow> None
      | Some s \<Rightarrow> if expiresAt s < now then None else Some s)"
  using assms
  by (simp add: cleanup_filter map_store_def map_of_filter_distinct split: option.splits)

lemma cleanup_map_store: "map_store secrets \<Longrightarrow> map_store (fst (cleanup now secrets))"
  by (simp add: cleanup_filter) (simp add: map_store_def distinct_map_filter)

lemma cleanup_length:
  "map_store secrets \<Longrightarrow>
   length (fst (cleanup now secrets)) + snd (cleanup now secrets) = length secrets"
  using sum_length_filter_compl [of "\<lambda>p. expiresAt (snd p) < now" secrets]
  by (simp add: cleanup_filter)

subsection \<open>handlers\<close>

lemma post_cases:
  "post_secrets uuid now req secrets = (Error 400 ''Secret content is required'', secrets) \<or>
   post_secrets uuid now req secrets = (Error 400 ''Secret content is too large (max 100KB)'', secrets) \<or>
   (\<exists>c. body_content req = JString c \<and> trim c \<noteq> [] \<and> length c \<le> 100000 \<and>
      post_secrets uuid now req secrets =
        (Created uuid (request_protocol req @ js ''://'' @ request_host req @ js ''/?secret='' @ uuid)
           (now + 86400000) 24,
         AList.update uuid \<lparr>content = trim c, expiresAt = now + 86400000\<rparr> secrets))"
  by (cases "body_content req") (auto simp: post_secrets_def Let_def SECRET_TTL_HOURS_def)

lemma post_accepted:
  assumes "\<not> is_error (fst (post_secrets uuid now req secrets))"
  shows "\<exists>c. body_content req = JString c \<and> trim c \<noteq> [] \<and> length c \<le> 100000 \<and>
      post_secrets uuid now req secrets =
        (Created uuid (request_protocol req @ js ''://'' @ request_host req @ js ''/?secret='' @ uuid)
           (now + 86400000) 24,
         AList.update uuid \<lparr>content = trim c, expiresAt = now + 86400000\<rparr> secrets)"
  using post_cases [of uuid now req secrets] assms by auto

lemma get_absent:
  "map_of secrets sid = None \<Longrightarrow>
   get_secret now sid secrets = (Error 404 ''Secret not found or already accessed'', secrets)"
  by (simp add: get_secret_def)

lemma get_short:
  "length sid \<noteq> 36 \<Longrightarrow>
   get_secret now sid secrets = (Error 404 ''Secret not found or already accessed'', secrets)"
  by (simp add: get_secret_def)

lemma get_expired:
  "length sid = 36 \<Longrightarrow> map_of secrets sid = Some s \<Longrightarrow> expiresAt s < now \<Longrightarrow>
   get_secret now sid secrets = (Error 404 ''Secret has expired'', AList.delete sid secrets)"
  by (auto simp: get_secret_def)

lemma get_live:
  "length sid = 36 \<Longrightarrow> map_of secrets sid = Some s \<Longrightarrow> \<not> expiresAt s < now \<Longrightarrow>
   get_secret now sid secrets = (Content (content s), AList.delete sid secrets)"
  by (auto simp: get_secret_def)

lemma get_store_cases:
  "snd (get_secret now sid secrets) = secrets \<or>
   snd (get_secret now sid secrets) = AList.delete sid secrets"
  by (auto simp: get_secret_def split: option.splits)

lemma get_other:
  "sid' \<noteq> sid \<Longrightarrow> map_of (snd (get_secret now sid' secrets)) sid = map_of secrets sid"
  using get_store_cases [of now sid' secrets] by (auto simp: delete_conv')

lemma post_other:
  "uuid \<noteq> sid \<Longrightarrow> map_of (snd (post_secrets uuid now req secrets)) sid = map_of secrets sid"
  using post_cases [of uuid now req secrets] by (auto simp: update_conv')

subsection \<open>steps\<close>

lemma step_map_store: "map_store secrets \<Longrightarrow> map_store (snd (step ev secrets))"
proof (cases ev)
  case (PostSecrets uuid now req)
  assume "map_store secrets"
  then show ?thesis
    using PostSecrets post_cases [of uuid now req secrets]
    by (auto simp: map_store_def distinct_update)
next
  case (GetSecret now sid)
  assume "map_store secrets"
  then show ?thesis
    using GetSecret get_store_cases [of now sid secrets]
    by (auto simp: map_store_def distinct_delete)
next
  case GetHealth
  assume "map_store secrets"
  then show ?thesis using GetHealth by simp
next
  case (CleanupTick now)
  assume "map_store secrets"
  then show ?thesis using CleanupTick by (simp add: cleanup_map_store)
qed

lemma step_absent:
  assumes "map_of secrets sid = None" and "\<not> draws sid ev"
  shows "map_of (snd (step ev secrets)) sid = None"
proof (cases ev)
  case (PostSecrets uuid now req)
  then show ?thesis using assms by (simp add: post_other)
next
  case (GetSecret now sid')
  have "fst ` set (snd (get_secret now sid' secrets)) \<subseteq> fst ` set secrets"
    using get_store_cases [of now sid' secrets] set_delete_subset [of sid' secrets] by auto
  then show ?thesis using GetSecret assms by (auto simp: map_of_eq_None_iff)
next
  case GetHealth
  then show ?thesis using assms by simp
next
  case (CleanupTick now)
  have "fst ` set (fst (cleanup now secrets)) \<subseteq> fst ` set secrets"
    using cleanup_set [of now secrets] by auto
  then show ?thesis using CleanupTick assms by (auto simp: map_of_eq_None_iff)
qed

lemma step_keeps:
  assumes "map_store secrets" and "map_of secrets sid = Some s"
    and "\<not> draws sid ev" and "\<not> reads sid ev" and "unexpired_at s ev"
  shows "map_of (snd (step ev secrets)) sid = Some s"
proof (cases ev)
  case (PostSecrets uuid now req)
  then show ?thesis using assms by (simp add: post_other)
next
  case (GetSecret now sid')
  then show ?thesis using assms by (simp add: get_other)
next
  case GetHealth
  then show ?thesis using assms by simp
next
  case (CleanupTick now)
  then show ?thesis using assms by (simp add: cleanup_map_of)
qed

lemma step_size:
  assumes "map_store secrets"
    and "case ev of PostSecrets uuid now req \<Rightarrow> uuid \<notin> fst ` set secrets | _ \<Rightarrow> True"
  shows "length (snd (step ev secrets)) + removed_of (fst (step ev secrets)) =
         length secrets + puts_of (fst (step ev secrets))"
proof (cases ev)
  case (PostSecrets uuid now req)
  with assms have "uuid \<notin> fst ` set secrets" by simp
  then show ?thesis
    using PostSecrets post_cases [of uuid now req secrets]
    by (auto simp: length_update_fresh)
next
  case (GetSecret now sid)
  show ?thesis
  proof (cases "length sid = 36")
    case False
    then show ?thesis using GetSecret by (simp add: get_short)
  next
    case len: True
    show ?thesis
    proof (cases "map_of secrets sid")
      case None
      then show ?thesis using GetSecret by (simp add: get_absent)
    next
      case (Some s)
      have l: "Suc (length (AList.delete sid secrets)) = length secrets"
        using assms(1) Some by (intro length_delete_present) (simp_all add: map_store_def)
      show ?thesis
      proof (cases "expiresAt s < now")
        case True
        then show ?thesis using GetSecret l by (simp add: get_expired [OF len Some])
      next
        case False
        then show ?thesis using GetSecret l by (simp add: get_live [OF len Some])
      qed
    qed
  qed
next
  case GetHealth
  then show ?thesis by (simp add: get_health_def)
next
  case (CleanupTick now)
  then show ?thesis using cleanup_length [OF assms(1), of now] by simp
qed

lemma step_trimmed:
  assumes "\<forall>p\<in>set secrets. trimmed (content (snd p))"
  shows "\<forall>p\<in>set (snd (step ev secrets)). trimmed (content (snd p))"
proof (cases ev)
  case (PostSecrets uuid now req)
  from post_cases [of uuid now req secrets]
  consider "snd (post_secrets uuid now req secrets) = secrets"
    | c where "trim c \<noteq> []"
        "snd (post_secrets uuid now req secrets) =
           AList.update uuid \<lparr>content = trim c, expiresAt = now + 86400000\<rparr> secrets"
    by auto
  then show ?thesis
  proof cases
    case 1
    then show ?thesis using PostSecrets assms by simp
  next
    case 2
    have "trimmed (trim c)" using 2(1) by (rule trim_trimmed)
    then show ?thesis
      using PostSecrets assms 2(2)
        set_update_subset [of uuid "\<lparr>content = trim c, expiresAt = now + 86400000\<rparr>" secrets]
      by auto
  qed
next
  case (GetSecret now sid)
  then show ?thesis
    using assms get_store_cases [of now sid secrets] set_delete_subset [of sid secrets] by auto
next
  case GetHealth
  then show ?thesis using assms by simp
next
  case (CleanupTick now)
  then show ?thesis using assms cleanup_set [of now secrets] by auto
qed

subsection \<open>runs\<close>

lemma reads_GetSecret: "reads sid ev \<Longrightarrow> \<exists>now. ev = GetSecret now sid"
  by (cases ev) auto

lemma responses_for_Cons:
  "responses_for sid (ev # evs) secrets =
     (if reads sid ev then [fst (step ev secrets)] else []) @
     responses_for sid evs (snd (step ev secrets))"
  by (simp add: responses_for_def)

lemma responses_absent:
  assumes "map_of secrets sid = None" and "\<forall>ev\<in>set evs. \<not> draws sid ev"
  shows "responses_for sid evs secrets =
     replicate (length (filter (reads sid) evs))
       (Response (Error 404 ''Secret not found or already accessed''))"
  using assms
proof (induction evs arbitrary: secrets)
  case Nil
  then show ?case by (simp add: responses_for_def)
next
  case (Cons ev evs)
  from Cons.prems have nd: "\<not> draws sid ev" and rest: "\<forall>ev\<in>set evs. \<not> draws sid ev"
    by simp_all
  have "map_of (snd (step ev secrets)) sid = None"
    using Cons.prems(1) nd by (rule step_absent)
  then have ih: "responses_for sid evs (snd (step ev secrets)) =
     replicate (length (filter (reads sid) evs))
       (Response (Error 404 ''Secret not found or already accessed''))"
    using rest by (rule Cons.IH)
  show ?case
  proof (cases "reads sid ev")
    case True
    then obtain now where "ev = GetSecret now sid" using reads_GetSecret by blast
    then have "fst (step ev secrets) = Response (Error 404 ''Secret not found or already accessed'')"
      using Cons.prems(1) by (simp add: get_absent)
    then show ?thesis using True ih by (simp add: responses_for_Cons)
  next
    case False
    then show ?thesis using ih by (simp add: responses_for_Cons)
  qed
qed

lemma responses_live:
  assumes "map_store secrets" and "length sid = 36" and "map_of secrets sid = Some s"
    and "\<forall>ev\<in>set evs. \<not> draws sid ev \<and> unexpired_at s ev"
  shows "responses_for sid evs secrets =
     (case filter (reads sid) evs of
        [] \<Rightarrow> []
      | r # rs \<Rightarrow> Response (Content (content s)) #
          replicate (length rs) (Response (Error 404 ''Secret not found or already accessed'')))"
  using assms
proof (induction evs arbitrary: secrets)
  case Nil
  then show ?case by (simp add: responses_for_def)
next
  case (Cons ev evs)
  from Cons.prems have nd: "\<not> draws sid ev" and un: "unexpired_at s ev"
    and rest: "\<forall>ev\<in>set evs. \<not> draws sid ev \<and> unexpired_at s ev"
    by simp_all
  show ?case
  proof (cases "reads sid ev")
    case True
    then obtain now where ev: "ev = GetSecret now sid" using reads_GetSecret by blast
    with un have "\<not> expiresAt s < now" by simp
    then have g: "get_secret now sid secrets = (Content (content s), AList.delete sid secrets)"
      using Cons.prems(2,3) by (simp add: get_live)
    have "map_of (AList.delete sid secrets) sid = None" by (simp add: delete_conv')
    moreover from rest have "\<forall>ev\<in>set evs. \<not> draws sid ev" by simp
    ultimately have "responses_for sid evs (AList.delete sid secrets) =
       replicate (length (filter (reads sid) evs))
         (Response (Error 404 ''Secret not found or already accessed''))"
      by (rule responses_absent)
    then show ?thesis using True ev g by (simp add: responses_for_Cons)
  next
    case False
    have "map_store (snd (step ev secrets))" using Cons.prems(1) by (rule step_map_store)
    moreover have "map_of (snd (step ev secrets)) sid = Some s"
      using Cons.prems(1,3) nd False un by (rule step_keeps)
    ultimately have "responses_for sid evs (snd (step ev secrets)) =
       (case filter (reads sid) evs of
          [] \<Rightarrow> []
        | r # rs \<Rightarrow> Response (Content (content s)) #
            replicate (length rs) (Response (Error 404 ''Secret not found or already accessed'')))"
      using Cons.prems(2) rest by (intro Cons.IH)
    then show ?thesis using False by (simp add: responses_for_Cons)
  qed
qed

lemma run_size:
  assumes "map_store secrets" and "fresh_uuids evs secrets"
  shows "length (exec evs secrets) + removed (trace evs secrets) =
         length secrets + puts (trace evs secrets)"
  using assms
proof (induction evs arbitrary: secrets)
  case Nil
  then show ?case by (simp add: removed_def puts_def)
next
  case (Cons ev evs)
  from Cons.prems(2) have
    fr: "case ev of PostSecrets uuid now req \<Rightarrow> uuid \<notin> fst ` set secrets | _ \<Rightarrow> True"
    and rest: "fresh_uuids evs (snd (step ev secrets))"
    by simp_all
  have st: "length (snd (step ev secrets)) + removed_of (fst (step ev secrets)) =
         length secrets + puts_of (fst (step ev secrets))"
    using Cons.prems(1) fr by (rule step_size)
  have "map_store (snd (step ev secrets))" using Cons.prems(1) by (rule step_map_store)
  then have "length (exec evs (snd (step ev secrets))) + removed (trace evs (snd (step ev secrets))) =
         length (snd (step ev secrets)) + puts (trace evs (snd (step ev secrets)))"
    using rest by (rule Cons.IH)
  with st show ?case by (simp add: removed_def puts_def)
qed

lemma run_trimmed:
  assumes "\<forall>p\<in>set secrets. trimmed (content (snd p))"
  shows "\<forall>p\<in>set (exec evs secrets). trimmed (content (snd p))"
  using assms
proof (induction evs arbitrary: secrets)
  case Nil
  then show ?case by simp
next
  case (Cons ev evs)
  have "\<forall>p\<in>set (snd (step ev secrets)). trimmed (content (snd p))"
    using Cons.prems by (rule step_trimmed)
  then have "\<forall>p\<in>set (exec evs (snd (step ev secrets))). trimmed (content (snd p))"
    by (rule Cons.IH)
  then show ?case by simp
qed

subsection \<open>sample inputs\<close>

lemma length_sample_uuid: "length sample_uuid = 36"
  by (simp add: sample_uuid_def js_def)

lemma sample_uuid_nonempty: "sample_uuid \<noteq> []"
  using length_sample_uuid by auto

lemma trim_sample: "trim (js '' hi '') = js ''hi''"
  by (simp add: trim_def js_def isWhiteSpace_def)

lemma post_sample:
  "post_secrets sample_uuid now (request_with (js '' hi '')) [] =
     (Created sample_uuid (js ''https://your-domain.com/?secret='' @ sample_uuid) (now + 86400000) 24,
      [(sample_uuid, \<lparr>content = js ''hi'', expiresAt = now + 86400000\<rparr>)])"
proof -
  have "js '' hi '' \<noteq> []" by (simp add: js_def)
  moreover have "length (js '' hi '') \<le> 100000" by (simp add: js_def)
  moreover have "js ''hi'' \<noteq> []" by (simp add: js_def)
  moreover have "js ''https'' @ js ''://'' @ js ''your-domain.com'' @ js ''/?secret='' @ sample_uuid
    = js ''https://your-domain.com/?secret='' @ sample_uuid" by (simp add: js_def)
  ultimately show ?thesis
    by (simp add: post_secrets_def request_with_def trim_sample request_protocol_def
        request_host_def SECRET_TTL_HOURS_def Let_def)
qed

lemma trim_replicate:
  assumes "\<not> isWhiteSpace x" and "0 < n"
  shows "trim (replicate n x) = replicate n x"
proof -
  have "trimmed (replicate n x)" using assms by (simp add: trimmed_def)
  then show ?thesis by (rule trim_id)
qed

section \<open>Properties\<close>

text \<open>
  C1 (at-most-once). The store holds a live entry under a 36-character identifier. In any
  run in which no create request draws that identifier again and no clock reading has passed
  the entry's expiry, and which holds at least one read of the identifier, however the
  reads are interleaved with each other and with other requests and cleanup ticks: the
  first read is answered with the payload, and every other read with the 404 response
  \<open>Secret not found or already accessed\<close>.
\<close>

theorem at_most_once:
  assumes "map_store secrets" and "length sid = 36" and "map_of secrets sid = Some s"
    and "\<forall>ev\<in>set evs. \<not> draws sid ev \<and> unexpired_at s ev"
    and "filter (reads sid) evs \<noteq> []"
  shows "responses_for sid evs secrets =
     Response (Content (content s)) #
     replicate (length (filter (reads sid) evs) - 1)
       (Response (Error 404 ''Secret not found or already accessed''))"
proof -
  from assms(5) obtain r rs where f: "filter (reads sid) evs = r # rs"
    by (cases "filter (reads sid) evs") auto
  show ?thesis
    using responses_live [OF assms(1-4)] f by simp
qed

text \<open>
  Three reads of one live entry, interleaved with a health check and a cleanup tick.
\<close>

theorem at_most_once_witness:
  "responses_for sample_uuid
     [GetSecret 10 sample_uuid, GetHealth, GetSecret 10 sample_uuid, CleanupTick 11,
      GetSecret 12 sample_uuid]
     [(sample_uuid, \<lparr>content = js ''hello'', expiresAt = 100\<rparr>)] =
   [Response (Content (js ''hello'')),
    Response (Error 404 ''Secret not found or already accessed''),
    Response (Error 404 ''Secret not found or already accessed'')]"
  using at_most_once [of "[(sample_uuid, \<lparr>content = js ''hello'', expiresAt = 100\<rparr>)]"
      sample_uuid "\<lparr>content = js ''hello'', expiresAt = 100\<rparr>"
      "[GetSecret 10 sample_uuid, GetHealth, GetSecret 10 sample_uuid, CleanupTick 11,
        GetSecret 12 sample_uuid]"]
  by (simp add: map_store_def length_sample_uuid)

text \<open>
  C2 as stated fails at the boundary: the read handler compares \<open>expiresAt < now\<close>, so a
  read at the very instant \<open>expiresAt = now\<close> still returns the payload.
\<close>

theorem expired_read_counterexample:
  "get_secret 5 sample_uuid [(sample_uuid, \<lparr>content = js ''a'', expiresAt = 5\<rparr>)] =
     (Content (js ''a''), [])"
  by (simp add: get_secret_def length_sample_uuid sample_uuid_nonempty)

text \<open>
  C2 (expiry enforcement), amended. A read at time \<open>now\<close> of a 36-character identifier whose
  stored entry has \<open>expiresAt < now\<close> removes the entry and answers 404
  \<open>Secret has expired\<close>, never the payload, whether or not the cleanup job has run.
\<close>

theorem expired_read:
  assumes "length sid = 36" and "map_of secrets sid = Some s" and "expiresAt s < now"
  shows "get_secret now sid secrets = (Error 404 ''Secret has expired'', AList.delete sid secrets) \<and>
         map_of (snd (get_secret now sid secrets)) sid = None"
  using assms by (simp add: get_expired delete_conv')

text \<open>
  An entry that expired at 5, read at 6.
\<close>

theorem expired_read_witness:
  "get_secret 6 sample_uuid [(sample_uuid, \<lparr>content = js ''a'', expiresAt = 5\<rparr>)] =
     (Error 404 ''Secret has expired'', [])"
  using expired_read [of sample_uuid "[(sample_uuid, \<lparr>content = js ''a'', expiresAt = 5\<rparr>)]"
      "\<lparr>content = js ''a'', expiresAt = 5\<rparr>" 6]
  by (simp add: length_sample_uuid)

text \<open>
  C3 (no resurrection). An identifier held by the store is removed by a read of it (which
  consumes the entry or finds it expired) or by a cleanup tick after its expiry. From then
  on, in every run in which no create request draws the identifier again, every read of it
  is answered with the 404 response \<open>Secret not found or already accessed\<close>.
\<close>

theorem no_resurrection:
  assumes "map_store secrets" and "map_of secrets sid = Some s"
    and "ev = GetSecret now sid \<and> length sid = 36 \<or> ev = CleanupTick now \<and> expiresAt s < now"
    and "\<forall>e\<in>set evs. \<not> draws sid e"
  shows "map_of (snd (step ev secrets)) sid = None \<and>
     responses_for sid evs (snd (step ev secrets)) =
       replicate (length (filter (reads sid) evs))
         (Response (Error 404 ''Secret not found or already accessed''))"
proof -
  have gone: "map_of (snd (step ev secrets)) sid = None"
    using assms(3)
  proof
    assume a: "ev = GetSecret now sid \<and> length sid = 36"
    have "snd (get_secret now sid secrets) = AList.delete sid secrets"
      using a assms(2) by (auto simp: get_secret_def)
    then show ?thesis using a by (simp add: delete_conv')
  next
    assume "ev = CleanupTick now \<and> expiresAt s < now"
    then show ?thesis using assms(1,2) by (simp add: cleanup_map_of)
  qed
  then show ?thesis using responses_absent [OF gone assms(4)] by simp
qed

text \<open>
  An entry evicted by the cleanup job, then read twice.
\<close>

theorem no_resurrection_witness:
  "responses_for sample_uuid
     [GetSecret 7 sample_uuid, CleanupTick 8, GetSecret 9 sample_uuid]
     (snd (step (CleanupTick 6) [(sample_uuid, \<lparr>content = js ''a'', expiresAt = 5\<rparr>)])) =
   [Response (Error 404 ''Secret not found or already accessed''),
    Response (Error 404 ''Secret not found or already accessed'')]"
  using no_resurrection [of "[(sample_uuid, \<lparr>content = js ''a'', expiresAt = 5\<rparr>)]"
      sample_uuid "\<lparr>content = js ''a'', expiresAt = 5\<rparr>" "CleanupTick 6" 6
      "[GetSecret 7 sample_uuid, CleanupTick 8, GetSecret 9 sample_uuid]"]
  by (simp add: map_store_def)

text \<open>
  C4 as stated fails: the create handler stores \<open>content.trim()\<close>, so a payload with white
  space at either end does not come back byte for byte.
\<close>

theorem round_trip_counterexample:
  "\<not> is_error (fst (post_secrets sample_uuid 0 (request_with (js '' hi '')) [])) \<and>
   fst (get_secret 1 sample_uuid (snd (post_secrets sample_uuid 0 (request_with (js '' hi '')) [])))
     = Content (js ''hi'') \<and>
   js ''hi'' \<noteq> js '' hi ''"
  by (simp add: post_sample get_secret_def length_sample_uuid sample_uuid_nonempty)
     (simp add: js_def)

text \<open>
  C4 (round trip), amended. After an accepted create request, a read of the returned
  identifier no later than the expiry instant returns the submitted content with the white
  space at both ends stripped; it equals the submitted content when that has no white space
  at either end.
\<close>

theorem round_trip_trimmed:
  assumes "length uuid = 36"
    and "\<not> is_error (fst (post_secrets uuid now req secrets))"
    and "now' \<le> now + SECRET_TTL_HOURS * 60 * 60 * 1000"
  shows "fst (get_secret now' uuid (snd (post_secrets uuid now req secrets))) =
           Content (trim (string_of (body_content req))) \<and>
         (trimmed (string_of (body_content req)) \<longrightarrow>
            fst (get_secret now' uuid (snd (post_secrets uuid now req secrets))) =
              Content (string_of (body_content req)))"
proof -
  from post_accepted [OF assms(2)] obtain c where
    c: "body_content req = JString c"
    and p: "snd (post_secrets uuid now req secrets) =
         AList.update uuid \<lparr>content = trim c, expiresAt = now + 86400000\<rparr> secrets"
    by auto
  have m: "map_of (snd (post_secrets uuid now req secrets)) uuid =
        Some \<lparr>content = trim c, expiresAt = now + 86400000\<rparr>"
    by (simp add: p update_conv')
  have "\<not> expiresAt \<lparr>content = trim c, expiresAt = now + 86400000\<rparr> < now'"
    using assms(3) by (simp add: SECRET_TTL_HOURS_def)
  with get_live [OF assms(1) m]
  have "fst (get_secret now' uuid (snd (post_secrets uuid now req secrets))) = Content (trim c)"
    by simp
  then show ?thesis using c by (auto simp: trim_id)
qed

text \<open>
  The content \<open> hi \<close>, read back at the expiry instant.
\<close>

theorem round_trip_trimmed_witness:
  "fst (get_secret 86400000 sample_uuid
     (snd (post_secrets sample_uuid 0 (request_with (js '' hi '')) []))) = Content (js ''hi'')"
  using round_trip_trimmed [of sample_uuid 0 "request_with (js '' hi '')" "[]" 86400000]
  by (simp add: length_sample_uuid post_sample SECRET_TTL_HOURS_def)
     (simp add: request_with_def trim_sample)

text \<open>
  C5 as stated fails: a read of an expired entry that the cleanup job has not yet removed
  is answered with \<open>Secret has expired\<close>, which differs from the answer for an unknown
  identifier.
\<close>

theorem unified_not_found_counterexample:
  "fst (get_secret 10 sample_uuid [(sample_uuid, \<lparr>content = js ''a'', expiresAt = 5\<rparr>)]) \<noteq>
   fst (get_secret 10 sample_uuid [])"
  by (simp add: get_secret_def length_sample_uuid sample_uuid_nonempty)

text \<open>
  C5 (not-found responses), amended. Every read that does not return a payload is answered
  with status 404. The body is \<open>Secret not found or already accessed\<close> both for an
  identifier the store does not hold and for one that an earlier read has already been
  served for, so these two causes are indistinguishable; a 36-character identifier whose
  entry has expired and is still stored is answered with the body \<open>Secret has expired\<close>.
\<close>

theorem not_found_responses:
  "((\<exists>c. fst (get_secret now sid secrets) = Content c) \<or>
    fst (get_secret now sid secrets) = Error 404 ''Secret not found or already accessed'' \<or>
    fst (get_secret now sid secrets) = Error 404 ''Secret has expired'') \<and>
   (map_of secrets sid = None \<longrightarrow>
      fst (get_secret now sid secrets) = Error 404 ''Secret not found or already accessed'') \<and>
   fst (get_secret now' sid (snd (get_secret now sid secrets))) =
      Error 404 ''Secret not found or already accessed'' \<and>
   (length sid = 36 \<and> map_of secrets sid = Some s \<and> expiresAt s < now \<longrightarrow>
      fst (get_secret now sid secrets) = Error 404 ''Secret has expired'')"
proof -
  have a: "(\<exists>c. fst (get_secret now sid secrets) = Content c) \<or>
    fst (get_secret now sid secrets) = Error 404 ''Secret not found or already accessed'' \<or>
    fst (get_secret now sid secrets) = Error 404 ''Secret has expired''"
    by (auto simp: get_secret_def split: option.splits)
  have b: "map_of secrets sid = None \<longrightarrow>
      fst (get_secret now sid secrets) = Error 404 ''Secret not found or already accessed''"
    by (simp add: get_absent)
  have c: "fst (get_secret now' sid (snd (get_secret now sid secrets))) =
      Error 404 ''Secret not found or already accessed''"
  proof (cases "length sid = 36")
    case False
    then show ?thesis by (simp add: get_short)
  next
    case True
    have "map_of (snd (get_secret now sid secrets)) sid = None"
      using True by (auto simp: get_secret_def delete_conv' split: option.splits)
    then show ?thesis by (simp add: get_absent)
  qed
  have d: "length sid = 36 \<and> map_of secrets sid = Some s \<and> expiresAt s < now \<longrightarrow>
      fst (get_secret now sid secrets) = Error 404 ''Secret has expired''"
    by (simp add: get_expired)
  from a b c d show ?thesis by blast
qed

text \<open>
  An expired entry, an unknown identifier and a consumed entry.
\<close>

theorem not_found_responses_witness:
  "fst (get_secret 10 sample_uuid [(sample_uuid, \<lparr>content = js ''a'', expiresAt = 5\<rparr>)]) =
     Error 404 ''Secret has expired'' \<and>
   fst (get_secret 10 sample_uuid []) = Error 404 ''Secret not found or already accessed'' \<and>
   fst (get_secret 11 sample_uuid
     (snd (get_secret 4 sample_uuid [(sample_uuid, \<lparr>content = js ''a'', expiresAt = 5\<rparr>)]))) =
     Error 404 ''Secret not found or already accessed''"
  using not_found_responses [of 10 sample_uuid
      "[(sample_uuid, \<lparr>content = js ''a'', expiresAt = 5\<rparr>)]" 11
      "\<lparr>content = js ''a'', expiresAt = 5\<rparr>"]
    not_found_responses [of 10 sample_uuid "[]" 11 "\<lparr>content = js ''a'', expiresAt = 5\<rparr>"]
    not_found_responses [of 4 sample_uuid
      "[(sample_uuid, \<lparr>content = js ''a'', expiresAt = 5\<rparr>)]" 11
      "\<lparr>content = js ''a'', expiresAt = 5\<rparr>"]
  by (simp add: length_sample_uuid)

text \<open>
  C6 as stated fails at the boundary: the cleanup job compares \<open>expiresAt < now\<close>, so an
  entry with \<open>expiresAt = now\<close> survives the sweep.
\<close>

theorem sweep_counterexample:
  "cleanup 5 [(sample_uuid, \<lparr>content = js ''a'', expiresAt = 5\<rparr>)] =
     ([(sample_uuid, \<lparr>content = js ''a'', expiresAt = 5\<rparr>)], 0)"
  by (simp add: cleanup_def)

text \<open>
  C6 (sweep correctness), amended. On a store with one entry per key, the cleanup job at
  time \<open>now\<close> removes exactly the entries with \<open>expiresAt < now\<close>, keeps every other entry
  in place, and its \<open>cleanedCount\<close> is the number of entries removed.
\<close>

theorem sweep_removes_expired:
  assumes "map_store secrets"
  shows "fst (cleanup now secrets) = filter (\<lambda>p. \<not> expiresAt (snd p) < now) secrets \<and>
         snd (cleanup now secrets) = length (filter (\<lambda>p. expiresAt (snd p) < now) secrets) \<and>
         length (fst (cleanup now secrets)) + snd (cleanup now secrets) = length secrets"
  using assms cleanup_length [of secrets now] by (simp add: cleanup_filter)

text \<open>
  Entries expiring at 4, 5 and 6, swept at 5.
\<close>

theorem sweep_removes_expired_witness:
  "cleanup 5
     [(sample_uuid, \<lparr>content = js ''a'', expiresAt = 4\<rparr>),
      (js ''b'', \<lparr>content = js ''b'', expiresAt = 5\<rparr>),
      (js ''c'', \<lparr>content = js ''c'', expiresAt = 6\<rparr>)] =
     ([(js ''b'', \<lparr>content = js ''b'', expiresAt = 5\<rparr>),
       (js ''c'', \<lparr>content = js ''c'', expiresAt = 6\<rparr>)], 1)"
proof -
  have d: "map_store
     [(sample_uuid, \<lparr>content = js ''a'', expiresAt = 4\<rparr>),
      (js ''b'', \<lparr>content = js ''b'', expiresAt = 5\<rparr>),
      (js ''c'', \<lparr>content = js ''c'', expiresAt = 6\<rparr>)]"
    by (simp add: map_store_def sample_uuid_def js_def)
  show ?thesis
    using sweep_removes_expired [OF d, of 5] by (simp add: prod_eq_iff)
qed

text \<open>
  C7 (expiry of a new entry). Every accepted create request stores its entry with
  \<open>expiresAt\<close> equal to the clock reading plus \<open>SECRET_TTL_HOURS\<close> hours in milliseconds,
  the constant being 24, and its response carries the identifier and that instant.
\<close>

theorem put_expiry:
  assumes "\<not> is_error (fst (post_secrets uuid now req secrets))"
  shows "fst (post_secrets uuid now req secrets) =
           Created uuid
             (request_protocol req @ js ''://'' @ request_host req @ js ''/?secret='' @ uuid)
             (now + SECRET_TTL_HOURS * 60 * 60 * 1000) SECRET_TTL_HOURS \<and>
         map_option expiresAt (map_of (snd (post_secrets uuid now req secrets)) uuid) =
           Some (now + SECRET_TTL_HOURS * 60 * 60 * 1000) \<and>
         SECRET_TTL_HOURS = 24"
proof -
  from post_accepted [OF assms] obtain c where
    "post_secrets uuid now req secrets =
        (Created uuid (request_protocol req @ js ''://'' @ request_host req @ js ''/?secret='' @ uuid)
           (now + 86400000) 24,
         AList.update uuid \<lparr>content = trim c, expiresAt = now + 86400000\<rparr> secrets)"
    by auto
  then show ?thesis by (simp add: SECRET_TTL_HOURS_def update_conv')
qed

text \<open>
  A create request at 1700000000000.
\<close>

theorem put_expiry_witness:
  "post_secrets sample_uuid 1700000000000 (request_with (js '' hi '')) [] =
     (Created sample_uuid (js ''https://your-domain.com/?secret='' @ sample_uuid) 1700086400000 24,
      [(sample_uuid, \<lparr>content = js ''hi'', expiresAt = 1700086400000\<rparr>)])"
  using put_expiry [of sample_uuid 1700000000000 "request_with (js '' hi '')" "[]"]
  by (simp add: post_sample)

text \<open>
  C8 (size accounting). After any run from the empty store in which every identifier drawn
  is fresh, the \<open>activeSecrets\<close> of the health response is the number of entries inserted
  by create requests minus the number of entries removed by reads and by the cleanup job.
\<close>

theorem size_accounting:
  assumes "fresh_uuids evs []"
  shows "get_health (exec evs []) = Health (puts (trace evs []) - removed (trace evs [])) \<and>
         removed (trace evs []) \<le> puts (trace evs [])"
proof -
  have "map_store []" by (simp add: map_store_def)
  from run_size [OF this assms]
  have "length (exec evs []) + removed (trace evs []) = puts (trace evs [])" by simp
  then show ?thesis by (auto simp: get_health_def)
qed

text \<open>
  Two creates, one read and one cleanup tick leave one entry.
\<close>

theorem size_accounting_witness:
  "get_health
     (exec [PostSecrets sample_uuid 0 (request_with (js '' hi '')),
            PostSecrets (js ''b'') 1 (request_with (js '' hi '')),
            GetSecret 2 sample_uuid,
            CleanupTick 3] []) = Health 1"
proof -
  have p: "post_secrets (js ''b'') 1 (request_with (js '' hi ''))
      [(sample_uuid, \<lparr>content = js ''hi'', expiresAt = 86400000\<rparr>)] =
     (Created (js ''b'') (js ''https://your-domain.com/?secret=b'') 86400001 24,
      [(sample_uuid, \<lparr>content = js ''hi'', expiresAt = 86400000\<rparr>),
       (js ''b'', \<lparr>content = js ''hi'', expiresAt = 86400001\<rparr>)])"
    using trim_sample
    by (simp add: post_secrets_def request_with_def request_protocol_def
        request_host_def SECRET_TTL_HOURS_def Let_def)
       (simp add: js_def sample_uuid_def)
  have ne: "js ''b'' \<noteq> sample_uuid" by (simp add: js_def sample_uuid_def)
  have g: "get_secret 2 sample_uuid
      [(sample_uuid, \<lparr>content = js ''hi'', expiresAt = 86400000\<rparr>),
       (js ''b'', \<lparr>content = js ''hi'', expiresAt = 86400001\<rparr>)] =
     (Content (js ''hi''), [(js ''b'', \<lparr>content = js ''hi'', expiresAt = 86400001\<rparr>)])"
    using ne by (simp add: get_secret_def length_sample_uuid sample_uuid_nonempty)
  have c: "cleanup 3 [(js ''b'', \<lparr>content = js ''hi'', expiresAt = 86400001\<rparr>)] =
     ([(js ''b'', \<lparr>content = js ''hi'', expiresAt = 86400001\<rparr>)], 0)"
    by (simp add: cleanup_def)
  show ?thesis
    using size_accounting [of "[PostSecrets sample_uuid 0 (request_with (js '' hi '')),
            PostSecrets (js ''b'') 1 (request_with (js '' hi '')),
            GetSecret 2 sample_uuid,
            CleanupTick 3]"] ne
    by (simp add: post_sample p g c puts_def removed_def)
qed

text \<open>
  C9 (validation). A create request whose content is the empty string, consists of white
  space only, or is longer than 100000 code units is answered with a 400 error and leaves
  the store as it was.
\<close>

theorem invalid_content_rejected:
  assumes "body_content req = JString c"
    and "c = [] \<or> (\<forall>x\<in>set c. isWhiteSpace x) \<or> length c > 100000"
  shows "is_error (fst (post_secrets uuid now req secrets)) \<and>
         (\<exists>msg. fst (post_secrets uuid now req secrets) = Error 400 msg) \<and>
         snd (post_secrets uuid now req secrets) = secrets"
proof -
  from assms(2) have "c = [] \<or> trim c = [] \<or> length c > 100000"
    using trim_all_white by blast
  then show ?thesis using assms(1) by (auto simp: post_secrets_def Let_def)
qed

text \<open>
  The empty content, two spaces, and 100001 letters.
\<close>

theorem invalid_content_rejected_witness:
  "post_secrets sample_uuid 0 (request_with []) [] =
     (Error 400 ''Secret content is required'', []) \<and>
   post_secrets sample_uuid 0 (request_with (js ''  '')) [] =
     (Error 400 ''Secret content is required'', []) \<and>
   post_secrets sample_uuid 0 (request_with (replicate 100001 97)) [] =
     (Error 400 ''Secret content is too large (max 100KB)'', [])"
proof -
  have b: "body_content (request_with c) = JString c" for c
    by (simp add: request_with_def)
  have w: "\<forall>x\<in>set (js ''  ''). isWhiteSpace x" by (simp add: js_def isWhiteSpace_def)
  have n: "\<not> isWhiteSpace 97" by (simp add: isWhiteSpace_def)
  have t: "trim (replicate 100001 97) = replicate 100001 97"
    using n by (rule trim_replicate) simp
  have e1: "post_secrets sample_uuid 0 (request_with []) [] =
     (Error 400 ''Secret content is required'', [])"
    using invalid_content_rejected [OF b, of "[]" sample_uuid 0 "[]"]
    by (simp add: post_secrets_def b)
  have e2: "post_secrets sample_uuid 0 (request_with (js ''  '')) [] =
     (Error 400 ''Secret content is required'', [])"
    using invalid_content_rejected [OF b, of "js ''  ''" sample_uuid 0 "[]"] w
    by (simp add: post_secrets_def b trim_all_white)
  have e3: "post_secrets sample_uuid 0 (request_with (replicate 100001 97)) [] =
     (Error 400 ''Secret content is too large (max 100KB)'', [])"
    using invalid_content_rejected [OF b, of "replicate 100001 97" sample_uuid 0 "[]"]
    by (simp add: post_secrets_def b t)
  from e1 e2 e3 show ?thesis by simp
qed

text \<open>
  C10 (stored content is trimmed). In every store reached from the empty store by a run of
  the server, the content of every entry is non-empty and has no white space at either end.
\<close>

theorem stored_content_trimmed:
  "\<forall>p\<in>set (exec evs []). trimmed (content (snd p))"
  by (rule run_trimmed) simp

text \<open>
  The store after one create request with the content \<open> hi \<close>.
\<close>

theorem stored_content_trimmed_witness:
  "exec [PostSecrets sample_uuid 0 (request_with (js '' hi ''))] [] =
     [(sample_uuid, \<lparr>content = js ''hi'', expiresAt = 86400000\<rparr>)] \<and>
   trimmed (js ''hi'')"
  using stored_content_trimmed [of "[PostSecrets sample_uuid 0 (request_with (js '' hi ''))]"]
  by (simp add: post_sample)

end
